theory Spec2Isabelle
  imports Complex_Main "HOL-Library.Multiset" "HOL-Library.List_Lexorder" "HOL-Library.Char_ord"
begin

section \<open>The inspection table\<close>

text \<open>
  The table is the pandas DataFrame that \<open>read_data_set\<close> builds from the CSV feed; a row
  is one inspection. Only the columns that \<open>get_top_N\<close>, \<open>create_full_address\<close> and
  \<open>get_lat_lon\<close> read are kept. A cell that is missing in the feed is NaN in pandas and
  \<open>None\<close> here. The table is the list of its rows in positional order.

  \<open>get_top_N\<close> only compares the cells of the \<open>GRADE DATE\<close> column, so the column is a
  type parameter with a linear order. In the program the column is text:
  \<open>read_data_set\<close> calls \<open>pd.read_csv(response)\<close> without \<open>parse_dates\<close>, so the cells are
  the strings of the feed, compared character by character (\<open>csv_resto\<close>).
  \<open>ZIPCODE\<close> is a float column, the only one converted with \<open>int()\<close>.
\<close>

datatype pyfloat = Finite real | PosInf | NegInf | NaN

record 'd resto =
  CAMIS :: int
  DBA :: "string option"
  BUILDING :: "string option"
  STREET :: "string option"
  BORO :: "string option"
  ZIPCODE :: pyfloat
  CUISINE_DESCRIPTION :: "string option"
  GRADE :: "string option"
  GRADE_DATE :: "'d option"
  SCORE :: "real option"

type_synonym csv_resto = "string resto"

section \<open>The pandas operations used by the selector\<close>

text \<open>
  \<open>DataFrame.sort_values(by=col, ascending=asc)\<close> orders the rows by one column and puts
  the rows whose cell is NaN last, whatever \<open>asc\<close> is (\<open>na_position='last'\<close>). The
  source does not pass \<open>kind\<close>, so the algorithm is the default \<open>'quicksort'\<close>, for which
  no order among equal keys is promised. The algorithm is therefore a parameter of the
  model: a function from a comparison and a list to a list. \<open>sorts\<close> is all that is known
  of it: on a total, transitive comparison it returns the same rows, in order.
\<close>

type_synonym 'r sorter = "('r \<Rightarrow> 'r \<Rightarrow> bool) \<Rightarrow> 'r list \<Rightarrow> 'r list"

definition sorts :: "'r sorter \<Rightarrow> bool" where
  "sorts srt \<longleftrightarrow>
     (\<forall>le xs. (\<forall>a b. le a b \<or> le b a) \<and> (\<forall>a b c. le a b \<longrightarrow> le b c \<longrightarrow> le a c)
        \<longrightarrow> mset (srt le xs) = mset xs \<and> sorted_wrt le (srt le xs))"

fun na_last :: "bool \<Rightarrow> ('k::linorder) option \<Rightarrow> 'k option \<Rightarrow> bool" where
  "na_last ascending _ None = True"
| "na_last ascending None (Some _) = False"
| "na_last ascending (Some x) (Some y) = (if ascending then x \<le> y else y \<le> x)"

definition sort_values ::
  "'r sorter \<Rightarrow> ('r \<Rightarrow> ('k::linorder) option) \<Rightarrow> bool \<Rightarrow> 'r list \<Rightarrow> 'r list" where
  "sort_values srt col ascending df = srt (\<lambda>a b. na_last ascending (col a) (col b)) df"

text \<open>
  \<open>drop_duplicates(subset=[col], keep='first')\<close> walks the rows in order and keeps a row
  when its key has not been seen before.
\<close>

fun dedup :: "('r \<Rightarrow> 'k) \<Rightarrow> 'k list \<Rightarrow> 'r list \<Rightarrow> 'r list" where
  "dedup key seen [] = []"
| "dedup key seen (r # rs) =
     (if key r \<in> set seen then dedup key seen rs else r # dedup key (key r # seen) rs)"

definition drop_duplicates :: "('r \<Rightarrow> 'k) \<Rightarrow> 'r list \<Rightarrow> 'r list" where
  "drop_duplicates key df = dedup key [] df"

text \<open>
  \<open>.iloc[:N]\<close> is a Python slice: for \<open>N \<ge> 0\<close> the first \<open>N\<close> rows, for \<open>N < 0\<close> all
  rows but the last \<open>-N\<close>.
\<close>

definition iloc_upto :: "int \<Rightarrow> 'r list \<Rightarrow> 'r list" where
  "iloc_upto N df =
     (if 0 \<le> N then take (nat N) df else take (length df - nat (- N)) df)"

section \<open>The selector\<close>

text \<open>
  The boolean mask of \<open>get_top_N\<close>:
  \<^verbatim>\<open>((restos.GRADE == 'A') | (restos.GRADE == 'B')) & (restos['CUISINE DESCRIPTION'] == cuisine_type)\<close>.
  A NaN cell compares unequal to every string.
\<close>

definition mask :: "string \<Rightarrow> 'd resto \<Rightarrow> bool" where
  "mask cuisine_type r \<longleftrightarrow>
     (GRADE r = Some ''A'' \<or> GRADE r = Some ''B'') \<and> CUISINE_DESCRIPTION r = Some cuisine_type"

definition candidates ::
  "('d::linorder) resto sorter \<Rightarrow> 'd resto list \<Rightarrow> string \<Rightarrow> 'd resto list" where
  "candidates srt restos cuisine_type =
     drop_duplicates CAMIS
       (sort_values srt GRADE_DATE False
          (filter (mask cuisine_type) restos))"

definition get_top_N ::
  "('d::linorder) resto sorter \<Rightarrow> 'd resto list \<Rightarrow> string \<Rightarrow> int \<Rightarrow> 'd resto list" where
  "get_top_N srt restos cuisine_type N =
     (let top_ten = iloc_upto N (sort_values srt SCORE True (candidates srt restos cuisine_type))
      in top_ten)"

text \<open>
  The keyword defaults of the signature \<open>get_top_N(restos, cuisine_type='Thai', N=10)\<close>:
  an argument that the caller leaves out is \<open>None\<close>.
\<close>

definition get_top_N_kw ::
  "('d::linorder) resto sorter \<Rightarrow> 'd resto list \<Rightarrow> string option \<Rightarrow> int option \<Rightarrow> 'd resto list" where
  "get_top_N_kw srt restos cuisine_type N =
     get_top_N srt restos
       (case cuisine_type of None \<Rightarrow> ''Thai'' | Some c \<Rightarrow> c)
       (case N of None \<Rightarrow> 10 | Some n \<Rightarrow> n)"

text \<open>A sorting algorithm that meets \<open>sorts\<close>: insertion sort, which is also stable.\<close>

fun insert_by :: "('r \<Rightarrow> 'r \<Rightarrow> bool) \<Rightarrow> 'r \<Rightarrow> 'r list \<Rightarrow> 'r list" where
  "insert_by le x [] = [x]"
| "insert_by le x (y # ys) = (if le x y then x # y # ys else y # insert_by le x ys)"

definition insertion_sort :: "'r sorter" where
  "insertion_sort le xs = foldr (insert_by le) xs []"

text \<open>
  Another one, which is not stable: it sorts downwards and reverses, so rows with equal
  keys come out in the reverse of their input order.
\<close>

definition reversing_sort :: "'r sorter" where
  "reversing_sort le xs = rev (insertion_sort (\<lambda>a b. le b a) xs)"

text \<open>
  Rows for the worked examples: \<open>inspection b i c g s d\<close> is the row \<open>b\<close> with identifier
  \<open>i\<close>, cuisine \<open>c\<close>, grade \<open>g\<close>, score \<open>s\<close> and grade date \<open>d\<close>; \<open>blank\<close> is a row
  whose cells are all missing.
\<close>

definition inspection :: "'d resto \<Rightarrow> int \<Rightarrow> string \<Rightarrow> string \<Rightarrow> real \<Rightarrow> 'd \<Rightarrow> 'd resto" where
  "inspection b i c g s d =
     b\<lparr>CAMIS := i, CUISINE_DESCRIPTION := Some c, GRADE := Some g,
       SCORE := Some s, GRADE_DATE := Some d\<rparr>"

definition blank :: "'d resto" where
  "blank = \<lparr>CAMIS = 0, DBA = None, BUILDING = None, STREET = None, BORO = None,
     ZIPCODE = NaN, CUISINE_DESCRIPTION = None, GRADE = None, GRADE_DATE = None,
     SCORE = None\<rparr>"

section \<open>The selector on a store of frames\<close>

text \<open>
  Whether \<open>get_top_N\<close> changes the table it is given is a question about objects, not
  values. Here the DataFrames live in a store, a frame is named by its position in the
  store, and each pandas call of \<open>get_top_N\<close> is the call as the source writes it:
  \<open>.loc[mask]\<close>, \<open>.sort_values(...)\<close> and \<open>.drop_duplicates(...)\<close> without
  \<open>inplace=True\<close>, and \<open>.iloc[:N]\<close>, each of which reads its receiver and returns a new
  frame. The source binds the results to the local names \<open>candidates\<close> and \<open>top_ten\<close>
  and assigns to no column or cell.
\<close>

type_synonym 'd store = "'d resto list list"

definition new_frame :: "'d resto list \<Rightarrow> 'd store \<Rightarrow> nat \<times> 'd store" where
  "new_frame df s = (length s, s @ [df])"

definition loc_st :: "('d resto \<Rightarrow> bool) \<Rightarrow> nat \<Rightarrow> 'd store \<Rightarrow> nat \<times> 'd store" where
  "loc_st p ref s = new_frame (filter p (s ! ref)) s"

definition sort_values_st ::
  "'d resto sorter \<Rightarrow> ('d resto \<Rightarrow> ('k::linorder) option) \<Rightarrow> bool \<Rightarrow> nat \<Rightarrow> 'd store
     \<Rightarrow> nat \<times> 'd store" where
  "sort_values_st srt col ascending ref s = new_frame (sort_values srt col ascending (s ! ref)) s"

definition drop_duplicates_st :: "('d resto \<Rightarrow> 'k) \<Rightarrow> nat \<Rightarrow> 'd store \<Rightarrow> nat \<times> 'd store" where
  "drop_duplicates_st key ref s = new_frame (drop_duplicates key (s ! ref)) s"

definition iloc_upto_st :: "int \<Rightarrow> nat \<Rightarrow> 'd store \<Rightarrow> nat \<times> 'd store" where
  "iloc_upto_st N ref s = new_frame (iloc_upto N (s ! ref)) s"

definition get_top_N_st ::
  "('d::linorder) resto sorter \<Rightarrow> nat \<Rightarrow> string \<Rightarrow> int \<Rightarrow> 'd store \<Rightarrow> nat \<times> 'd store" where
  "get_top_N_st srt restos cuisine_type N s =
     (let (masked, s1) = loc_st (mask cuisine_type) restos s;
          (by_date, s2) = sort_values_st srt GRADE_DATE False masked s1;
          (candidates, s3) = drop_duplicates_st CAMIS by_date s2;
          (by_score, s4) = sort_values_st srt SCORE True candidates s3;
          (top_ten, s5) = iloc_upto_st N by_score s4
      in (top_ten, s5))"

section \<open>The geocoder\<close>

text \<open>
  Python values as \<open>get_lat_lon\<close> meets them: the JSON that the geocoding client
  returns (a list of dicts), \<open>None\<close>, and the float \<open>np.nan\<close>. A dict is an association
  list. The exceptions are the ones the two functions can raise: \<open>int()\<close> of a NaN or an
  infinite float, \<open>.get\<close> on a value that is not a dict, and whatever the client raises.
\<close>

datatype py_error = ValueError | OverflowError | AttributeError | ServiceError

datatype pyval =
    PNone
  | PBool bool
  | PInt int
  | PFloat pyfloat
  | PStr string
  | PList "pyval list"
  | PDict "(string \<times> pyval) list"

record geopoint =
  name :: "string option"
  lat :: pyval
  lon :: pyval

definition and_then :: "'e + 'a \<Rightarrow> ('a \<Rightarrow> 'e + 'b) \<Rightarrow> 'e + 'b" where
  "and_then r f = (case r of Inl e \<Rightarrow> Inl e | Inr v \<Rightarrow> f v)"

text \<open>\<open>str(n)\<close> for an integer, and \<open>int(x)\<close> for a float (truncation towards zero).\<close>

fun str_nat :: "nat \<Rightarrow> string" where
  "str_nat n =
     (if n < 10 then [''0123456789'' ! n]
      else str_nat (n div 10) @ [''0123456789'' ! (n mod 10)])"

declare str_nat.simps [simp del]

definition str_int :: "int \<Rightarrow> string" where
  "str_int i = (if i < 0 then CHR ''-'' # str_nat (nat (- i)) else str_nat (nat i))"

fun py_int :: "pyfloat \<Rightarrow> py_error + int" where
  "py_int (Finite x) = Inr (if 0 \<le> x then \<lfloor>x\<rfloor> else \<lceil>x\<rceil>)"
| "py_int NaN = Inl ValueError"
| "py_int PosInf = Inl OverflowError"
| "py_int NegInf = Inl OverflowError"

text \<open>A cell of an object column inside an f-string: the string, or \<open>nan\<close> when missing.\<close>

fun format_cell :: "string option \<Rightarrow> string" where
  "format_cell None = ''nan''"
| "format_cell (Some s) = s"

definition create_full_address :: "'d resto \<Rightarrow> py_error + string" where
  "create_full_address resto =
     and_then (py_int (ZIPCODE resto)) (\<lambda>zip.
       Inr (format_cell (BUILDING resto) @ '' '' @ format_cell (STREET resto) @ '', '' @
            format_cell (BORO resto) @ '' '' @ str_int zip))"

text \<open>\<open>d.get(k, default)\<close>; on anything but a dict the attribute does not exist.\<close>

fun py_get :: "pyval \<Rightarrow> string \<Rightarrow> pyval \<Rightarrow> py_error + pyval" where
  "py_get (PDict kvs) k dflt = Inr (case map_of kvs k of None \<Rightarrow> dflt | Some v \<Rightarrow> v)"
| "py_get _ k dflt = Inl AttributeError"

text \<open>\<^verbatim>\<open>result.get('geometry', {}).get('location', {}).get(k)\<close>\<close>

definition coordinate :: "pyval \<Rightarrow> string \<Rightarrow> py_error + pyval" where
  "coordinate result k =
     and_then (py_get result ''geometry'' (PDict [])) (\<lambda>geometry.
     and_then (py_get geometry ''location'' (PDict [])) (\<lambda>location.
       py_get location k PNone))"

text \<open>
  The geocoding client \<open>gmaps.geocode\<close> is outside the repository: it is a parameter, a
  function from the address to the list of matches or to an exception. The two
  \<open>logger.info\<close> calls only format values and are left out.
\<close>

type_synonym geocoder = "string \<Rightarrow> py_error + pyval list"

definition get_lat_lon :: "geocoder \<Rightarrow> 'd resto \<Rightarrow> py_error + geopoint" where
  "get_lat_lon geocode resto =
     and_then (create_full_address resto) (\<lambda>address.
     and_then (geocode address) (\<lambda>results.
       if length results > 0 then
         and_then (coordinate (results ! 0) ''lat'') (\<lambda>lat.
         and_then (coordinate (results ! 0) ''lng'') (\<lambda>lon.
           Inr \<lparr>name = DBA resto, lat = lat, lon = lon\<rparr>))
       else Inr \<lparr>name = DBA resto, lat = PFloat NaN, lon = PFloat NaN\<rparr>))"

section \<open>Properties of the pandas operations\<close>

lemma na_last_total: "na_last asc a b \<or> na_last asc b a"
  by (cases a; cases b) auto

lemma na_last_trans: "na_last asc a b \<Longrightarrow> na_last asc b c \<Longrightarrow> na_last asc a c"
  by (cases a; cases b; cases c) (auto split: if_splits)

lemma na_last_refl: "na_last asc a a"
  by (cases a) auto

lemma sortsD:
  assumes "sorts srt"
    and "\<And>a b. le a b \<or> le b a"
    and "\<And>a b c. le a b \<Longrightarrow> le b c \<Longrightarrow> le a c"
  shows "mset (srt le xs) = mset xs \<and> sorted_wrt le (srt le xs)"
proof -
  have "(\<forall>a b. le a b \<or> le b a) \<and> (\<forall>a b c. le a b \<longrightarrow> le b c \<longrightarrow> le a c)"
    using assms(2,3) by blast
  moreover have "(\<forall>a b. le a b \<or> le b a) \<and> (\<forall>a b c. le a b \<longrightarrow> le b c \<longrightarrow> le a c)
       \<longrightarrow> mset (srt le xs) = mset xs \<and> sorted_wrt le (srt le xs)"
    using assms(1) unfolding sorts_def by (elim allE)
  ultimately show ?thesis by (rule rev_mp)
qed

lemma sort_values_spec:
  assumes "sorts srt"
  shows "mset (sort_values srt col asc df) = mset df \<and>
         sorted_wrt (\<lambda>a b. na_last asc (col a) (col b)) (sort_values srt col asc df)"
  unfolding sort_values_def
  by (rule sortsD [OF assms]) (rule na_last_total, erule na_last_trans)

lemma mset_sort_values:
  "sorts srt \<Longrightarrow> mset (sort_values srt col asc df) = mset df"
  by (simp add: sort_values_spec)

lemma sorted_sort_values:
  "sorts srt \<Longrightarrow>
   sorted_wrt (\<lambda>a b. na_last asc (col a) (col b)) (sort_values srt col asc df)"
  by (simp add: sort_values_spec)

lemma set_sort_values: "sorts srt \<Longrightarrow> set (sort_values srt col asc df) = set df"
  by (rule mset_eq_setD) (rule mset_sort_values)

lemma length_sort_values: "sorts srt \<Longrightarrow> length (sort_values srt col asc df) = length df"
  by (rule mset_eq_length) (rule mset_sort_values)

lemma insert_by_mset: "mset (insert_by le x ys) = add_mset x (mset ys)"
  by (induction ys) auto

lemma insert_by_set: "set (insert_by le x ys) = insert x (set ys)"
  by (induction ys) auto

lemma insert_by_sorted:
  assumes tot: "\<forall>a b. le a b \<or> le b a"
    and tr: "\<forall>a b c. le a b \<longrightarrow> le b c \<longrightarrow> le a c"
  shows "sorted_wrt le ys \<Longrightarrow> sorted_wrt le (insert_by le x ys)"
proof (induction ys)
  case Nil
  then show ?case by simp
next
  case (Cons y ys)
  show ?case
  proof (cases "le x y")
    case True
    with Cons.prems tr show ?thesis by auto
  next
    case False
    with tot have "le y x" by blast
    with False Cons show ?thesis by (auto simp: insert_by_set)
  qed
qed

lemma insertion_sort_Cons:
  "insertion_sort le (x # xs) = insert_by le x (insertion_sort le xs)"
  by (simp add: insertion_sort_def)

lemma insertion_sort_Nil: "insertion_sort le [] = []"
  by (simp add: insertion_sort_def)

lemma insertion_sort_mset: "mset (insertion_sort le xs) = mset xs"
  by (induction xs) (simp_all add: insertion_sort_Nil insertion_sort_Cons insert_by_mset)

lemma insertion_sort_sorted:
  assumes "\<forall>a b. le a b \<or> le b a"
    and "\<forall>a b c. le a b \<longrightarrow> le b c \<longrightarrow> le a c"
  shows "sorted_wrt le (insertion_sort le xs)"
proof (induction xs)
  case Nil
  show ?case by (simp add: insertion_sort_Nil)
next
  case (Cons x xs)
  from assms Cons show ?case
    unfolding insertion_sort_Cons by (rule insert_by_sorted)
qed

lemma sorts_insertion_sort: "sorts insertion_sort"
  unfolding sorts_def
  by (intro allI impI conjI insertion_sort_mset insertion_sort_sorted) blast+

subsection \<open>drop_duplicates\<close>

lemma set_dedup: "set (dedup key seen xs) \<subseteq> set xs"
  by (induction xs arbitrary: seen) auto

lemma dedup_unseen: "r \<in> set (dedup key seen xs) \<Longrightarrow> key r \<notin> set seen"
  by (induction xs arbitrary: seen) (fastforce split: if_splits)+

lemma dedup_keys: "key ` set (dedup key seen xs) = key ` set xs - set seen"
proof (induction xs arbitrary: seen)
  case Nil
  show ?case by simp
next
  case (Cons x xs)
  show ?case
  proof (cases "key x \<in> set seen")
    case True
    then show ?thesis using Cons.IH [of seen] by auto
  next
    case False
    then show ?thesis using Cons.IH [of "key x # seen"] by auto
  qed
qed

lemma distinct_dedup: "distinct (map key (dedup key seen xs))"
proof (induction xs arbitrary: seen)
  case Nil
  show ?case by simp
next
  case (Cons x xs)
  have "key x \<notin> key ` set (dedup key (key x # seen) xs)"
    by (simp add: dedup_keys)
  with Cons show ?case by simp
qed

lemma length_dedup: "length (dedup key seen xs) = card (key ` set xs - set seen)"
proof -
  have "length (dedup key seen xs) = length (map key (dedup key seen xs))"
    by simp
  also have "\<dots> = card (set (map key (dedup key seen xs)))"
    by (rule distinct_card [symmetric]) (rule distinct_dedup)
  also have "\<dots> = card (key ` set xs - set seen)"
    by (simp add: dedup_keys)
  finally show ?thesis .
qed

lemma dedup_first:
  assumes "sorted_wrt le xs" and "\<And>a. le a a"
    and "r \<in> set (dedup key seen xs)" and "q \<in> set xs" and "key q = key r"
  shows "le r q"
  using assms(1,3,4)
proof (induction xs arbitrary: seen)
  case Nil
  then show ?case by simp
next
  case (Cons x xs)
  show ?case
  proof (cases "key x \<in> set seen")
    case True
    with Cons.prems have r: "r \<in> set (dedup key seen xs)" by simp
    then have "key r \<notin> set seen" by (rule dedup_unseen)
    with True assms(5) have "q \<noteq> x" by auto
    with Cons.prems have "q \<in> set xs" by simp
    with Cons.IH [OF _ r] Cons.prems(1) show ?thesis by simp
  next
    case False
    show ?thesis
    proof (cases "r = x")
      case True
      with Cons.prems(1,3) assms(2) show ?thesis by auto
    next
      case neq: False
      with False Cons.prems have r: "r \<in> set (dedup key (key x # seen) xs)" by simp
      then have "key r \<notin> set (key x # seen)" by (rule dedup_unseen)
      with assms(5) have "q \<noteq> x" by auto
      with Cons.prems have "q \<in> set xs" by simp
      with Cons.IH [OF _ r] Cons.prems(1) show ?thesis by simp
    qed
  qed
qed

lemma dedup_nil_iff: "dedup key [] xs = [] \<longleftrightarrow> xs = []"
  by (cases xs) auto

subsection \<open>The slice\<close>

lemma iloc_upto_take: "\<exists>n. iloc_upto N df = take n df"
  unfolding iloc_upto_def by auto

lemma set_iloc_upto: "set (iloc_upto N df) \<subseteq> set df"
  using iloc_upto_take [of N df] by (auto dest: in_set_takeD)

lemma length_iloc_upto: "0 \<le> N \<Longrightarrow> length (iloc_upto N df) = min (nat N) (length df)"
  unfolding iloc_upto_def by simp

lemma sorted_wrt_iloc_upto: "sorted_wrt P df \<Longrightarrow> sorted_wrt P (iloc_upto N df)"
  using iloc_upto_take [of N df] by (auto intro: sorted_wrt_take)

lemma distinct_map_iloc_upto:
  "distinct (map f df) \<Longrightarrow> distinct (map f (iloc_upto N df))"
  using iloc_upto_take [of N df] by (auto simp: take_map [symmetric])

subsection \<open>Candidates: filtered, newest first, one row per restaurant\<close>

lemma sort_values_Nil: "sorts srt \<Longrightarrow> sort_values srt col asc [] = []"
  using mset_sort_values [of srt col asc "[]"] by simp

lemma sort_values_single: "sorts srt \<Longrightarrow> sort_values srt col asc [r] = [r]"
  using mset_sort_values [of srt col asc "[r]"] by simp

lemma set_candidates:
  "sorts srt \<Longrightarrow> set (candidates srt restos c) \<subseteq> {r \<in> set restos. mask c r}"
  unfolding candidates_def drop_duplicates_def
  using set_dedup [of CAMIS "[]"] by (fastforce simp: set_sort_values)

lemma candidates_keys:
  "sorts srt \<Longrightarrow> CAMIS ` set (candidates srt restos c) = CAMIS ` {r \<in> set restos. mask c r}"
  unfolding candidates_def drop_duplicates_def
  by (simp add: dedup_keys set_sort_values)

lemma distinct_candidates: "distinct (map CAMIS (candidates srt restos c))"
  unfolding candidates_def drop_duplicates_def by (rule distinct_dedup)

lemma length_candidates:
  "sorts srt \<Longrightarrow> length (candidates srt restos c) = card (CAMIS ` {r \<in> set restos. mask c r})"
  unfolding candidates_def drop_duplicates_def
  by (simp add: length_dedup set_sort_values)

lemma candidates_latest:
  assumes "sorts srt" and "r \<in> set (candidates srt restos c)"
    and "q \<in> set restos" and "mask c q" and "CAMIS q = CAMIS r"
  shows "na_last False (GRADE_DATE r) (GRADE_DATE q)"
proof -
  let ?sorted = "sort_values srt GRADE_DATE False (filter (mask c) restos)"
  let ?le = "\<lambda>a b. na_last False (GRADE_DATE a) (GRADE_DATE b)"
  have s: "sorted_wrt ?le ?sorted"
    using assms(1) by (rule sorted_sort_values)
  have refl: "\<And>a. ?le a a"
    by (rule na_last_refl)
  have r: "r \<in> set (dedup CAMIS [] ?sorted)"
    using assms(2) by (simp add: candidates_def drop_duplicates_def)
  have q: "q \<in> set ?sorted"
    using assms(1,3,4) by (simp add: set_sort_values)
  show ?thesis
    by (rule dedup_first [of ?le ?sorted r CAMIS "[]" q, OF s refl r q assms(5)])
qed

lemma candidates_Nil:
  "sorts srt \<Longrightarrow> filter (mask c) restos = [] \<Longrightarrow> candidates srt restos c = []"
  by (simp add: candidates_def drop_duplicates_def sort_values_Nil)

subsection \<open>The selector's result\<close>

lemma get_top_N_eq:
  "get_top_N srt restos c N = iloc_upto N (sort_values srt SCORE True (candidates srt restos c))"
  by (simp add: get_top_N_def)

lemma set_get_top_N:
  "sorts srt \<Longrightarrow> set (get_top_N srt restos c N) \<subseteq> set (candidates srt restos c)"
  unfolding get_top_N_eq
  using set_iloc_upto [of N "sort_values srt SCORE True (candidates srt restos c)"]
  by (simp add: set_sort_values)

lemma sorted_get_top_N:
  "sorts srt \<Longrightarrow>
   sorted_wrt (\<lambda>a b. na_last True (SCORE a) (SCORE b)) (get_top_N srt restos c N)"
  unfolding get_top_N_eq by (intro sorted_wrt_iloc_upto sorted_sort_values)

lemma distinct_get_top_N:
  assumes "sorts srt"
  shows "distinct (map CAMIS (get_top_N srt restos c N))"
proof -
  have "mset (map CAMIS (sort_values srt SCORE True (candidates srt restos c)))
        = mset (map CAMIS (candidates srt restos c))"
    using assms by (simp add: mset_sort_values)
  then have "distinct (map CAMIS (sort_values srt SCORE True (candidates srt restos c)))"
    using distinct_candidates [of srt restos c] by (metis mset_eq_imp_distinct_iff)
  then show ?thesis
    unfolding get_top_N_eq by (rule distinct_map_iloc_upto)
qed

lemma get_top_N_Nil:
  "sorts srt \<Longrightarrow> filter (mask c) restos = [] \<Longrightarrow> get_top_N srt restos c N = []"
  by (simp add: get_top_N_eq candidates_Nil sort_values_Nil iloc_upto_def)

lemmas selector_eval =
  get_top_N_def candidates_def drop_duplicates_def sort_values_def insertion_sort_def
  iloc_upto_def mask_def inspection_def blank_def

text \<open>
  C3. Every row that \<open>get_top_N\<close> returns has grade \<open>A\<close> or \<open>B\<close>, and its cuisine cell
  is exactly the requested string (string equality, so case matters), whatever the
  table, the cuisine and \<open>N\<close> are.
\<close>

theorem get_top_N_grade_cuisine:
  assumes "sorts srt" and "r \<in> set (get_top_N srt restos cuisine_type N)"
  shows "(GRADE r = Some ''A'' \<or> GRADE r = Some ''B'') \<and>
         CUISINE_DESCRIPTION r = Some cuisine_type"
proof -
  have "r \<in> set (candidates srt restos cuisine_type)"
    using assms set_get_top_N by blast
  then have "mask cuisine_type r"
    using assms(1) set_candidates by blast
  then show ?thesis by (simp add: mask_def)
qed

theorem get_top_N_grade_cuisine_witness:
  "sorts (insertion_sort :: int resto sorter) \<and>
   get_top_N insertion_sort
     [inspection blank 1 ''Thai'' ''A'' 5 (20230101 :: int),
      inspection blank 2 ''thai'' ''A'' 3 20230101,
      inspection blank 3 ''Thai'' ''C'' 2 20230101,
      inspection blank 4 ''Thai'' ''B'' 7 20230101] ''Thai'' 10
     = [inspection blank 1 ''Thai'' ''A'' 5 20230101,
        inspection blank 4 ''Thai'' ''B'' 7 20230101] \<and>
   (GRADE (inspection blank 4 ''Thai'' ''B'' 7 (20230101 :: int)) = Some ''A'' \<or>
    GRADE (inspection blank 4 ''Thai'' ''B'' 7 (20230101 :: int)) = Some ''B'') \<and>
   CUISINE_DESCRIPTION (inspection blank 4 ''Thai'' ''B'' 7 (20230101 :: int)) = Some ''Thai''"
proof -
  let ?t = "[inspection blank 1 ''Thai'' ''A'' 5 (20230101 :: int),
      inspection blank 2 ''thai'' ''A'' 3 20230101,
      inspection blank 3 ''Thai'' ''C'' 2 20230101,
      inspection blank 4 ''Thai'' ''B'' 7 20230101]"
  have s: "sorts (insertion_sort :: int resto sorter)"
    by (rule sorts_insertion_sort)
  have e: "get_top_N insertion_sort ?t ''Thai'' 10
     = [inspection blank 1 ''Thai'' ''A'' 5 20230101,
        inspection blank 4 ''Thai'' ''B'' 7 20230101]"
    by (simp add: selector_eval)
  have m: "inspection blank 4 ''Thai'' ''B'' 7 (20230101 :: int)
     \<in> set (get_top_N insertion_sort ?t ''Thai'' 10)"
    unfolding e by simp
  from s e get_top_N_grade_cuisine [OF s m] show ?thesis by blast
qed

text \<open>
  C4. The result of \<open>get_top_N\<close> is in ascending order of \<open>SCORE\<close>: a row with a score
  is preceded only by rows that have a score, and their scores are not larger. (Rows
  whose score is missing come after all the others, as \<open>sort_values\<close> places them.)
\<close>

theorem get_top_N_sorted_by_score:
  assumes "sorts srt" and "i < j" and "j < length (get_top_N srt restos cuisine_type N)"
    and "SCORE (get_top_N srt restos cuisine_type N ! j) = Some y"
  shows "\<exists>x. SCORE (get_top_N srt restos cuisine_type N ! i) = Some x \<and> x \<le> y"
proof -
  let ?out = "get_top_N srt restos cuisine_type N"
  have "sorted_wrt (\<lambda>a b. na_last True (SCORE a) (SCORE b)) ?out"
    using assms(1) by (rule sorted_get_top_N)
  then have "na_last True (SCORE (?out ! i)) (SCORE (?out ! j))"
    using assms(2,3) by (rule sorted_wrt_nth_less)
  then show ?thesis
    using assms(4) by (cases "SCORE (?out ! i)") auto
qed

theorem get_top_N_sorted_by_score_witness:
  "sorts (insertion_sort :: int resto sorter) \<and> (0 :: nat) < 2 \<and>
   get_top_N insertion_sort
     [inspection blank 1 ''Thai'' ''A'' 7 (20230101 :: int),
      inspection blank 2 ''Thai'' ''B'' 3 20230101,
      inspection blank 3 ''Thai'' ''A'' 5 20230101] ''Thai'' 10
     = [inspection blank 2 ''Thai'' ''B'' 3 20230101,
        inspection blank 3 ''Thai'' ''A'' 5 20230101,
        inspection blank 1 ''Thai'' ''A'' 7 20230101] \<and>
   (\<exists>x. SCORE (get_top_N insertion_sort
     [inspection blank 1 ''Thai'' ''A'' 7 (20230101 :: int),
      inspection blank 2 ''Thai'' ''B'' 3 20230101,
      inspection blank 3 ''Thai'' ''A'' 5 20230101] ''Thai'' 10 ! 0) = Some x \<and> x \<le> 7)"
proof -
  let ?t = "[inspection blank 1 ''Thai'' ''A'' 7 (20230101 :: int),
      inspection blank 2 ''Thai'' ''B'' 3 20230101,
      inspection blank 3 ''Thai'' ''A'' 5 20230101]"
  have s: "sorts (insertion_sort :: int resto sorter)"
    by (rule sorts_insertion_sort)
  have e: "get_top_N insertion_sort ?t ''Thai'' 10
     = [inspection blank 2 ''Thai'' ''B'' 3 20230101,
        inspection blank 3 ''Thai'' ''A'' 5 20230101,
        inspection blank 1 ''Thai'' ''A'' 7 20230101]"
    by (simp add: selector_eval)
  have l: "2 < length (get_top_N insertion_sort ?t ''Thai'' 10)"
    unfolding e by simp
  have y: "SCORE (get_top_N insertion_sort ?t ''Thai'' 10 ! 2) = Some 7"
    unfolding e by (simp add: inspection_def)
  have lt: "(0 :: nat) < 2" by simp
  from s lt e get_top_N_sorted_by_score [OF s lt l y] show ?thesis by blast
qed

text \<open>
  C9. When no row of the table has the requested cuisine, \<open>get_top_N\<close> returns the
  empty table. The model of \<open>get_top_N\<close> has no error result: the source raises
  nowhere, and an empty frame passes through every pandas call.
\<close>

theorem get_top_N_unknown_cuisine:
  assumes "sorts srt" and "\<forall>r \<in> set restos. CUISINE_DESCRIPTION r \<noteq> Some cuisine_type"
  shows "get_top_N srt restos cuisine_type N = []"
proof -
  have "filter (mask cuisine_type) restos = []"
    using assms(2) by (simp add: mask_def filter_empty_conv)
  with assms(1) show ?thesis by (rule get_top_N_Nil)
qed

theorem get_top_N_unknown_cuisine_witness:
  "sorts (insertion_sort :: int resto sorter) \<and>
   CUISINE_DESCRIPTION (inspection blank 1 ''Thai'' ''A'' 7 (20230101 :: int))
     \<noteq> Some ''Klingon'' \<and>
   CUISINE_DESCRIPTION (inspection blank 2 ''Pizza'' ''B'' 3 (20230101 :: int))
     \<noteq> Some ''Klingon'' \<and>
   get_top_N insertion_sort
     [inspection blank 1 ''Thai'' ''A'' 7 (20230101 :: int),
      inspection blank 2 ''Pizza'' ''B'' 3 20230101] ''Klingon'' 10 = []"
proof -
  have s: "sorts (insertion_sort :: int resto sorter)"
    by (rule sorts_insertion_sort)
  have c1: "CUISINE_DESCRIPTION (inspection blank 1 ''Thai'' ''A'' 7 (20230101 :: int))
     \<noteq> Some ''Klingon''"
    by (simp add: inspection_def)
  have c2: "CUISINE_DESCRIPTION (inspection blank 2 ''Pizza'' ''B'' 3 (20230101 :: int))
     \<noteq> Some ''Klingon''"
    by (simp add: inspection_def)
  from c1 c2 have h: "\<forall>r \<in> set [inspection blank 1 ''Thai'' ''A'' 7 (20230101 :: int),
                inspection blank 2 ''Pizza'' ''B'' 3 20230101].
      CUISINE_DESCRIPTION r \<noteq> Some ''Klingon''"
    by simp
  from s c1 c2 get_top_N_unknown_cuisine [OF s h] show ?thesis by blast
qed

subsection \<open>Two rows with different keys\<close>

lemma mset_pair_cases:
  assumes "mset ys = {#a, b#}"
  shows "ys = [a, b] \<or> ys = [b, a]"
proof -
  from assms have "length ys = 2"
    by (metis size_mset size_add_mset size_empty numeral_2_eq_2)
  then obtain x y where ys: "ys = [x, y]"
    by (auto simp: length_Suc_conv numeral_2_eq_2)
  with assms have "{#x, y#} = {#a, b#}" by simp
  then have "(x = a \<and> y = b) \<or> (x = b \<and> y = a)"
    by (auto simp: add_eq_conv_ex)
  with ys show ?thesis by auto
qed

lemma sort_values_pair:
  assumes "sorts srt" and "\<not> na_last asc (col a) (col b)"
  shows "sort_values srt col asc [a, b] = [b, a]"
proof -
  let ?ys = "sort_values srt col asc [a, b]"
  have "mset ?ys = {#a, b#}"
    using mset_sort_values [OF assms(1), of col asc "[a, b]"] by simp
  then have "?ys = [a, b] \<or> ?ys = [b, a]"
    by (rule mset_pair_cases)
  moreover have "sorted_wrt (\<lambda>x y. na_last asc (col x) (col y)) ?ys"
    using assms(1) by (rule sorted_sort_values)
  ultimately show ?thesis
    using assms(2) by auto
qed

lemma scenario_result:
  assumes "sorts srt" and "d1 < d2"
  shows "get_top_N srt
           [inspection b1 1 ''Thai'' ''A'' 5 d1, inspection b2 1 ''Thai'' ''B'' 9 d2,
            inspection b3 2 ''Thai'' ''C'' 2 d1] ''Thai'' 10
         = [inspection b2 1 ''Thai'' ''B'' 9 d2]"
proof -
  let ?r1 = "inspection b1 1 ''Thai'' ''A'' 5 d1"
  let ?r2 = "inspection b2 1 ''Thai'' ''B'' 9 d2"
  let ?r3 = "inspection b3 2 ''Thai'' ''C'' 2 d1"
  have f: "filter (mask ''Thai'') [?r1, ?r2, ?r3] = [?r1, ?r2]"
    by (simp add: mask_def inspection_def)
  have "\<not> na_last False (GRADE_DATE ?r1) (GRADE_DATE ?r2)"
    using assms(2) by (simp add: inspection_def)
  with assms(1) have s: "sort_values srt GRADE_DATE False [?r1, ?r2] = [?r2, ?r1]"
    by (rule sort_values_pair)
  have d: "drop_duplicates CAMIS [?r2, ?r1] = [?r2]"
    by (simp add: drop_duplicates_def inspection_def)
  have c: "candidates srt [?r1, ?r2, ?r3] ''Thai'' = [?r2]"
    unfolding candidates_def f s d ..
  show ?thesis
    unfolding get_top_N_eq c sort_values_single [OF assms(1)]
    by (simp add: iloc_upto_def)
qed

text \<open>
  What the deduplication does, in the order of the cells of the \<open>GRADE DATE\<close> column:
  no two rows of the result of \<open>get_top_N\<close> have the same \<open>CAMIS\<close>; each row of the
  result is a row of the table that passes the mask, and no row of the table that passes
  the mask and has the same \<open>CAMIS\<close> has a greater cell (a row with a date is never
  beaten by one without). For three records (identifier 1 with grade A, score 5 and the
  smaller date cell; identifier 1 with grade B, score 9 and the greater date cell;
  identifier 2 with grade C) the result for \<open>Thai\<close> and \<open>N = 10\<close> is the one record of
  identifier 1 with score 9. Whether the greater cell is the later date depends on what
  the cells are; see the section on text dates below.
\<close>

theorem get_top_N_latest_per_restaurant:
  assumes "sorts srt"
  shows "distinct (map CAMIS (get_top_N srt restos cuisine_type N)) \<and>
    (\<forall>r \<in> set (get_top_N srt restos cuisine_type N).
       r \<in> set restos \<and> mask cuisine_type r \<and>
       (\<forall>q \<in> set restos. mask cuisine_type q \<and> CAMIS q = CAMIS r \<longrightarrow>
          (\<forall>d. GRADE_DATE q = Some d \<longrightarrow> (\<exists>d'. GRADE_DATE r = Some d' \<and> d \<le> d')))) \<and>
    (d1 < d2 \<longrightarrow>
       get_top_N srt
         [inspection b1 1 ''Thai'' ''A'' 5 d1, inspection b2 1 ''Thai'' ''B'' 9 d2,
          inspection b3 2 ''Thai'' ''C'' 2 d1] ''Thai'' 10
       = [inspection b2 1 ''Thai'' ''B'' 9 d2])"
proof (intro conjI ballI impI allI)
  show "distinct (map CAMIS (get_top_N srt restos cuisine_type N))"
    using assms by (rule distinct_get_top_N)
next
  fix r assume "r \<in> set (get_top_N srt restos cuisine_type N)"
  then have c: "r \<in> set (candidates srt restos cuisine_type)"
    using assms set_get_top_N by blast
  then show "r \<in> set restos" and "mask cuisine_type r"
    using assms set_candidates by blast+
  fix q d
  assume q: "q \<in> set restos" and m: "mask cuisine_type q \<and> CAMIS q = CAMIS r"
    and d: "GRADE_DATE q = Some d"
  have "na_last False (GRADE_DATE r) (GRADE_DATE q)"
    using assms c q m by (intro candidates_latest) auto
  with d show "\<exists>d'. GRADE_DATE r = Some d' \<and> d \<le> d'"
    by (cases "GRADE_DATE r") auto
next
  assume "d1 < d2"
  with assms show "get_top_N srt
         [inspection b1 1 ''Thai'' ''A'' 5 d1, inspection b2 1 ''Thai'' ''B'' 9 d2,
          inspection b3 2 ''Thai'' ''C'' 2 d1] ''Thai'' 10
       = [inspection b2 1 ''Thai'' ''B'' 9 d2]"
    by (rule scenario_result)
qed

theorem get_top_N_latest_per_restaurant_witness:
  "sorts (insertion_sort :: int resto sorter) \<and> (20230101 :: int) < 20230201 \<and>
   get_top_N insertion_sort
     [inspection blank 1 ''Thai'' ''A'' 5 (20230101 :: int),
      inspection blank 1 ''Thai'' ''B'' 9 20230201,
      inspection blank 2 ''Thai'' ''C'' 2 20230101] ''Thai'' 10
     = [inspection blank 1 ''Thai'' ''B'' 9 20230201] \<and>
   distinct (map CAMIS (get_top_N insertion_sort
     [inspection blank 1 ''Thai'' ''A'' 5 (20230101 :: int),
      inspection blank 1 ''Thai'' ''B'' 9 20230201,
      inspection blank 2 ''Thai'' ''C'' 2 20230101] ''Thai'' 10)) \<and>
   mask ''Thai'' (inspection blank 1 ''Thai'' ''A'' 5 (20230101 :: int)) \<and>
   CAMIS (inspection blank 1 ''Thai'' ''A'' 5 (20230101 :: int))
     = CAMIS (inspection blank 1 ''Thai'' ''B'' 9 (20230201 :: int)) \<and>
   (\<exists>d'. GRADE_DATE (inspection blank 1 ''Thai'' ''B'' 9 (20230201 :: int)) = Some d' \<and>
         20230101 \<le> d')"
proof -
  let ?r1 = "inspection blank 1 ''Thai'' ''A'' 5 (20230101 :: int)"
  let ?r2 = "inspection blank 1 ''Thai'' ''B'' 9 (20230201 :: int)"
  let ?r3 = "inspection blank 2 ''Thai'' ''C'' 2 (20230101 :: int)"
  let ?t = "[?r1, ?r2, ?r3]"
  have s: "sorts (insertion_sort :: int resto sorter)"
    by (rule sorts_insertion_sort)
  have lt: "(20230101 :: int) < 20230201" by simp
  have "(20230101 :: int) < 20230201 \<longrightarrow> get_top_N insertion_sort ?t ''Thai'' 10 = [?r2]"
    by (rule conjunct2 [OF conjunct2 [OF get_top_N_latest_per_restaurant [OF s]]])
  with lt have e: "get_top_N insertion_sort ?t ''Thai'' 10 = [?r2]" by blast
  have d: "distinct (map CAMIS (get_top_N insertion_sort ?t ''Thai'' 10))"
    by (rule conjunct1 [OF get_top_N_latest_per_restaurant [OF s]])
  have r2: "?r2 \<in> set (get_top_N insertion_sort ?t ''Thai'' 10)"
    unfolding e by simp
  have "?r2 \<in> set ?t \<and> mask ''Thai'' ?r2 \<and>
       (\<forall>q \<in> set ?t. mask ''Thai'' q \<and> CAMIS q = CAMIS ?r2 \<longrightarrow>
          (\<forall>d. GRADE_DATE q = Some d \<longrightarrow> (\<exists>d'. GRADE_DATE ?r2 = Some d' \<and> d \<le> d')))"
    by (rule bspec [OF conjunct1 [OF conjunct2 [OF get_top_N_latest_per_restaurant [OF s]]] r2])
  then have q: "\<forall>q \<in> set ?t. mask ''Thai'' q \<and> CAMIS q = CAMIS ?r2 \<longrightarrow>
          (\<forall>d. GRADE_DATE q = Some d \<longrightarrow> (\<exists>d'. GRADE_DATE ?r2 = Some d' \<and> d \<le> d'))"
    by blast
  have m: "mask ''Thai'' ?r1" by (simp add: mask_def inspection_def)
  have k: "CAMIS ?r1 = CAMIS ?r2" by (simp add: inspection_def)
  have g: "GRADE_DATE ?r1 = Some 20230101" by (simp add: inspection_def)
  have "?r1 \<in> set ?t" by simp
  with q m k g have "\<exists>d'. GRADE_DATE ?r2 = Some d' \<and> 20230101 \<le> d'" by blast
  with s lt e d m k show ?thesis by blast
qed

text \<open>
  C5, as the claim states it, fails for a negative \<open>N\<close>: \<open>.iloc[:-1]\<close> drops the last
  row, so two qualifying restaurants and \<open>N = -1\<close> give one row, which is more than
  \<open>N\<close>.
\<close>

theorem get_top_N_negative_N_counterexample:
  "get_top_N insertion_sort
     [inspection blank 1 ''Thai'' ''A'' 5 (20230101 :: int),
      inspection blank 2 ''Thai'' ''A'' 7 20230101] ''Thai'' (- 1)
     = [inspection blank 1 ''Thai'' ''A'' 5 20230101] \<and>
   \<not> int (length (get_top_N insertion_sort
     [inspection blank 1 ''Thai'' ''A'' 5 (20230101 :: int),
      inspection blank 2 ''Thai'' ''A'' 7 20230101] ''Thai'' (- 1))) \<le> - 1"
  by (simp add: selector_eval)

text \<open>
  C5, amended. For \<open>N \<ge> 0\<close> the result of \<open>get_top_N\<close> has at most \<open>N\<close> rows and at most
  as many rows as there are candidates (the rows left after the mask and the
  deduplication, one per qualifying restaurant); its length is the smaller of the two.
  When there are no more than \<open>N\<close> candidates, the result holds all of them and nothing
  else; when no row qualifies, the result is empty. A call that leaves \<open>N\<close> out is a
  call with \<open>N = 10\<close>.
\<close>

theorem get_top_N_length:
  assumes "sorts srt" and "0 \<le> N"
  shows "int (length (get_top_N srt restos cuisine_type N)) \<le> N \<and>
    length (get_top_N srt restos cuisine_type N) \<le> length (candidates srt restos cuisine_type) \<and>
    length (get_top_N srt restos cuisine_type N)
      = min (nat N) (length (candidates srt restos cuisine_type)) \<and>
    length (candidates srt restos cuisine_type)
      = card (CAMIS ` {r \<in> set restos. mask cuisine_type r}) \<and>
    (int (length (candidates srt restos cuisine_type)) \<le> N \<longrightarrow>
       mset (get_top_N srt restos cuisine_type N) = mset (candidates srt restos cuisine_type)) \<and>
    (filter (mask cuisine_type) restos = [] \<longrightarrow> get_top_N srt restos cuisine_type N = []) \<and>
    get_top_N_kw srt restos (Some cuisine_type) None = get_top_N srt restos cuisine_type 10"
proof -
  let ?c = "candidates srt restos cuisine_type"
  let ?s = "sort_values srt SCORE True ?c"
  have len: "length (get_top_N srt restos cuisine_type N) = min (nat N) (length ?c)"
    unfolding get_top_N_eq
    using assms by (simp add: length_iloc_upto length_sort_values)
  have full: "mset (get_top_N srt restos cuisine_type N) = mset ?c"
    if "int (length ?c) \<le> N"
  proof -
    from that assms have "iloc_upto N ?s = ?s"
      by (simp add: iloc_upto_def length_sort_values)
    then show ?thesis
      unfolding get_top_N_eq using assms(1) by (simp add: mset_sort_values)
  qed
  have empty: "get_top_N srt restos cuisine_type N = []"
    if "filter (mask cuisine_type) restos = []"
    using assms(1) that by (rule get_top_N_Nil)
  have kw: "get_top_N_kw srt restos (Some cuisine_type) None = get_top_N srt restos cuisine_type 10"
    by (simp add: get_top_N_kw_def)
  from len assms(2) have "int (length (get_top_N srt restos cuisine_type N)) \<le> N"
    by linarith
  moreover from len have
    "length (get_top_N srt restos cuisine_type N) \<le> length ?c" by simp
  moreover note len length_candidates [OF assms(1), of restos cuisine_type]
  ultimately show ?thesis
    using full empty kw by blast
qed

theorem get_top_N_length_witness:
  "sorts (insertion_sort :: int resto sorter) \<and> (0 :: int) \<le> 10 \<and>
   int (length (candidates insertion_sort
     [inspection blank 1 ''Thai'' ''A'' 7 (20230101 :: int),
      inspection blank 2 ''Thai'' ''B'' 3 20230101,
      inspection blank 3 ''Thai'' ''A'' 5 20230101] ''Thai'')) \<le> 10 \<and>
   length (get_top_N insertion_sort
     [inspection blank 1 ''Thai'' ''A'' 7 (20230101 :: int),
      inspection blank 2 ''Thai'' ''B'' 3 20230101,
      inspection blank 3 ''Thai'' ''A'' 5 20230101] ''Thai'' 10) = 3 \<and>
   mset (get_top_N insertion_sort
     [inspection blank 1 ''Thai'' ''A'' 7 (20230101 :: int),
      inspection blank 2 ''Thai'' ''B'' 3 20230101,
      inspection blank 3 ''Thai'' ''A'' 5 20230101] ''Thai'' 10)
   = mset (candidates insertion_sort
     [inspection blank 1 ''Thai'' ''A'' 7 (20230101 :: int),
      inspection blank 2 ''Thai'' ''B'' 3 20230101,
      inspection blank 3 ''Thai'' ''A'' 5 20230101] ''Thai'') \<and>
   filter (mask ''Thai'') [inspection blank 2 ''Pizza'' ''B'' 3 (20230101 :: int)] = [] \<and>
   get_top_N insertion_sort [inspection blank 2 ''Pizza'' ''B'' 3 (20230101 :: int)] ''Thai'' 10 = []"
proof -
  let ?t = "[inspection blank 1 ''Thai'' ''A'' 7 (20230101 :: int),
      inspection blank 2 ''Thai'' ''B'' 3 20230101,
      inspection blank 3 ''Thai'' ''A'' 5 20230101]"
  let ?p = "[inspection blank 2 ''Pizza'' ''B'' 3 (20230101 :: int)]"
  have s: "sorts (insertion_sort :: int resto sorter)"
    by (rule sorts_insertion_sort)
  have n: "(0 :: int) \<le> 10" by simp
  have c: "length (candidates insertion_sort ?t ''Thai'') = 3"
    by (simp add: selector_eval)
  then have c10: "int (length (candidates insertion_sort ?t ''Thai'')) \<le> 10" by simp
  have f: "filter (mask ''Thai'') ?p = []"
    by (simp add: mask_def inspection_def)
  note T = get_top_N_length [OF s n, of ?t "''Thai''"]
  note P = get_top_N_length [OF s n, of ?p "''Thai''"]
  from T c have l: "length (get_top_N insertion_sort ?t ''Thai'' 10) = 3" by simp
  from T c10 have m: "mset (get_top_N insertion_sort ?t ''Thai'' 10)
     = mset (candidates insertion_sort ?t ''Thai'')" by blast
  from P f have e: "get_top_N insertion_sort ?p ''Thai'' 10 = []" by blast
  from s n c10 l m f e show ?thesis by blast
qed

section \<open>Properties of the geocoder\<close>

lemma and_then_Inr: "and_then (Inr v) f = f v"
  by (simp add: and_then_def)

lemma and_then_Inl: "and_then (Inl e) f = Inl e"
  by (simp add: and_then_def)

lemma get_lat_lon_called:
  assumes "create_full_address resto = Inr address" and "geocode address = Inr results"
  shows "get_lat_lon geocode resto =
     (if length results > 0 then
        and_then (coordinate (results ! 0) ''lat'') (\<lambda>lat.
        and_then (coordinate (results ! 0) ''lng'') (\<lambda>lon.
          Inr \<lparr>name = DBA resto, lat = lat, lon = lon\<rparr>))
      else Inr \<lparr>name = DBA resto, lat = PFloat NaN, lon = PFloat NaN\<rparr>)"
  unfolding get_lat_lon_def assms and_then_Inr ..



lemma coordinate_location:
  "map_of m ''geometry'' = Some (PDict g) \<Longrightarrow> map_of g ''location'' = Some (PDict l) \<Longrightarrow>
   coordinate (PDict m) k = Inr (case map_of l k of None \<Rightarrow> PNone | Some v \<Rightarrow> v)"
  by (simp add: coordinate_def and_then_Inr)

text \<open>A field that is present but is not a dict (JSON \<open>null\<close>, say) makes \<open>.get\<close> raise.\<close>

lemma coordinate_geometry_null:
  "map_of m ''geometry'' = Some PNone \<Longrightarrow> coordinate (PDict m) k = Inl AttributeError"
  by (simp add: coordinate_def and_then_Inr and_then_Inl)

lemmas address_eval =
  create_full_address_def and_then_def str_int_def str_nat.simps blank_def

text \<open>
  C7. When the address has been built and the geocoding service answers it with an
  empty list, \<open>get_lat_lon\<close> raises nothing: it returns the point with the restaurant's
  name (\<open>DBA\<close>) and with \<open>np.nan\<close> for both coordinates, and \<open>np.nan\<close> is a value
  different from the number 0, float or int.
\<close>

theorem get_lat_lon_no_match:
  assumes "create_full_address resto = Inr address" and "geocode address = Inr []"
  shows "get_lat_lon geocode resto
           = Inr \<lparr>name = DBA resto, lat = PFloat NaN, lon = PFloat NaN\<rparr> \<and>
         PFloat NaN \<noteq> PFloat (Finite 0) \<and> PFloat NaN \<noteq> PInt 0 \<and> PFloat NaN \<noteq> PNone"
  using get_lat_lon_called [where geocode = geocode, OF assms] by simp

theorem get_lat_lon_no_match_witness:
  "create_full_address
     ((blank :: int resto)\<lparr>DBA := Some ''THAI VILLA'', BUILDING := Some ''5'',
        STREET := Some ''E 19TH ST'', BORO := Some ''MANHATTAN'', ZIPCODE := Finite 10003\<rparr>)
     = Inr ''5 E 19TH ST, MANHATTAN 10003'' \<and>
   (\<lambda>a. Inr []) ''5 E 19TH ST, MANHATTAN 10003'' = (Inr [] :: py_error + pyval list) \<and>
   get_lat_lon (\<lambda>a. Inr [])
     ((blank :: int resto)\<lparr>DBA := Some ''THAI VILLA'', BUILDING := Some ''5'',
        STREET := Some ''E 19TH ST'', BORO := Some ''MANHATTAN'', ZIPCODE := Finite 10003\<rparr>)
     = Inr \<lparr>name = Some ''THAI VILLA'', lat = PFloat NaN, lon = PFloat NaN\<rparr>"
proof -
  let ?r = "(blank :: int resto)\<lparr>DBA := Some ''THAI VILLA'', BUILDING := Some ''5'',
        STREET := Some ''E 19TH ST'', BORO := Some ''MANHATTAN'', ZIPCODE := Finite 10003\<rparr>"
  let ?g = "(\<lambda>a. Inr []) :: geocoder"
  have a: "create_full_address ?r = Inr ''5 E 19TH ST, MANHATTAN 10003''"
    by (simp add: address_eval)
  have g: "?g ''5 E 19TH ST, MANHATTAN 10003'' = Inr []" by simp
  have n: "DBA ?r = Some ''THAI VILLA''" by simp
  from get_lat_lon_no_match [where geocode = ?g, OF a g] n
  have "get_lat_lon ?g ?r = Inr \<lparr>name = Some ''THAI VILLA'', lat = PFloat NaN, lon = PFloat NaN\<rparr>"
    by simp
  with a g show ?thesis by blast
qed

text \<open>
  C8. When the geocoding service answers with one match or more, the result of
  \<open>get_lat_lon\<close> is computed from the first match alone: it is what the single-match
  answer would give, the later matches are never read, and when the first match has a
  \<open>geometry\<close> dict with a \<open>location\<close> dict holding \<open>lat\<close> and \<open>lng\<close>, these two values
  are the coordinates returned.
\<close>

theorem get_lat_lon_first_match:
  assumes "create_full_address resto = Inr address"
    and "geocode address = Inr (first # others)"
  shows "get_lat_lon geocode resto =
           and_then (coordinate first ''lat'') (\<lambda>lat.
           and_then (coordinate first ''lng'') (\<lambda>lon.
             Inr \<lparr>name = DBA resto, lat = lat, lon = lon\<rparr>)) \<and>
         get_lat_lon geocode resto = get_lat_lon (\<lambda>a. Inr [first]) resto \<and>
         (first = PDict m \<and> map_of m ''geometry'' = Some (PDict g) \<and>
          map_of g ''location'' = Some (PDict l) \<and>
          map_of l ''lat'' = Some latitude \<and> map_of l ''lng'' = Some longitude \<longrightarrow>
            get_lat_lon geocode resto
              = Inr \<lparr>name = DBA resto, lat = latitude, lon = longitude\<rparr>)"
proof -
  let ?point = "and_then (coordinate first ''lat'') (\<lambda>lat.
           and_then (coordinate first ''lng'') (\<lambda>lon.
             Inr \<lparr>name = DBA resto, lat = lat, lon = lon\<rparr>))"
  have a: "get_lat_lon geocode resto = ?point"
    using get_lat_lon_called [where geocode = geocode, OF assms] by simp
  have "(\<lambda>a. Inr [first]) address = (Inr [first] :: py_error + pyval list)" by simp
  then have b: "get_lat_lon (\<lambda>a. Inr [first]) resto = ?point"
    using get_lat_lon_called [where geocode = "\<lambda>a. Inr [first]", OF assms(1)] by simp
  have c: "?point = Inr \<lparr>name = DBA resto, lat = latitude, lon = longitude\<rparr>"
    if "first = PDict m" and "map_of m ''geometry'' = Some (PDict g)"
      and "map_of g ''location'' = Some (PDict l)"
      and "map_of l ''lat'' = Some latitude" and "map_of l ''lng'' = Some longitude"
    using that by (simp add: coordinate_location and_then_Inr)
  from a b c show ?thesis by simp
qed

theorem get_lat_lon_first_match_witness:
  "create_full_address
     ((blank :: int resto)\<lparr>DBA := Some ''THAI VILLA'', BUILDING := Some ''5'',
        STREET := Some ''E 19TH ST'', BORO := Some ''MANHATTAN'', ZIPCODE := Finite 10003\<rparr>)
     = Inr ''5 E 19TH ST, MANHATTAN 10003'' \<and>
   get_lat_lon
     (\<lambda>a. Inr [PDict [(''geometry'', PDict [(''location'',
                    PDict [(''lat'', PFloat (Finite 40.7)), (''lng'', PFloat (Finite (- 73.9)))])])],
                PDict [(''geometry'', PDict [(''location'',
                    PDict [(''lat'', PFloat (Finite 1)), (''lng'', PFloat (Finite 2))])])]])
     ((blank :: int resto)\<lparr>DBA := Some ''THAI VILLA'', BUILDING := Some ''5'',
        STREET := Some ''E 19TH ST'', BORO := Some ''MANHATTAN'', ZIPCODE := Finite 10003\<rparr>)
     = Inr \<lparr>name = Some ''THAI VILLA'', lat = PFloat (Finite 40.7),
            lon = PFloat (Finite (- 73.9))\<rparr>"
proof -
  let ?r = "(blank :: int resto)\<lparr>DBA := Some ''THAI VILLA'', BUILDING := Some ''5'',
        STREET := Some ''E 19TH ST'', BORO := Some ''MANHATTAN'', ZIPCODE := Finite 10003\<rparr>"
  let ?l = "[(''lat'', PFloat (Finite 40.7)), (''lng'', PFloat (Finite (- 73.9)))]"
  let ?g = "[(''location'', PDict ?l)]"
  let ?m = "[(''geometry'', PDict ?g)]"
  let ?second = "PDict [(''geometry'', PDict [(''location'',
                    PDict [(''lat'', PFloat (Finite 1)), (''lng'', PFloat (Finite 2))])])]"
  let ?gc = "(\<lambda>a. Inr [PDict ?m, ?second]) :: geocoder"
  have a: "create_full_address ?r = Inr ''5 E 19TH ST, MANHATTAN 10003''"
    by (simp add: address_eval)
  have g: "?gc ''5 E 19TH ST, MANHATTAN 10003'' = Inr (PDict ?m # [?second])" by simp
  have n: "DBA ?r = Some ''THAI VILLA''" by simp
  have h: "PDict ?m = PDict ?m \<and> map_of ?m ''geometry'' = Some (PDict ?g) \<and>
          map_of ?g ''location'' = Some (PDict ?l) \<and>
          map_of ?l ''lat'' = Some (PFloat (Finite 40.7)) \<and>
          map_of ?l ''lng'' = Some (PFloat (Finite (- 73.9)))"
    by simp
  note T = get_lat_lon_first_match [where geocode = ?gc and m = ?m and g = ?g and l = ?l
      and latitude = "PFloat (Finite 40.7)" and longitude = "PFloat (Finite (- 73.9))", OF a g]
  have "get_lat_lon ?gc ?r
     = Inr \<lparr>name = DBA ?r, lat = PFloat (Finite 40.7), lon = PFloat (Finite (- 73.9))\<rparr>"
    by (rule mp [OF conjunct2 [OF conjunct2 [OF T]] h])
  then have "get_lat_lon ?gc ?r
     = Inr \<lparr>name = Some ''THAI VILLA'', lat = PFloat (Finite 40.7),
            lon = PFloat (Finite (- 73.9))\<rparr>"
    by (simp only: n)
  with a show ?thesis by (rule conjI)
qed



section \<open>Properties of the selector on a store\<close>

lemma get_top_N_st_eq:
  assumes "restos < length s"
  shows "get_top_N_st srt restos cuisine_type N s =
    (length s + 4,
     s @ [filter (mask cuisine_type) (s ! restos),
          sort_values srt GRADE_DATE False (filter (mask cuisine_type) (s ! restos)),
          candidates srt (s ! restos) cuisine_type,
          sort_values srt SCORE True (candidates srt (s ! restos) cuisine_type),
          get_top_N srt (s ! restos) cuisine_type N])"
  using assms
  by (simp add: get_top_N_st_def loc_st_def sort_values_st_def drop_duplicates_st_def
      iloc_upto_st_def new_frame_def nth_append get_top_N_def candidates_def)

text \<open>
  C6. A call of \<open>get_top_N\<close> leaves every frame that existed before the call as it was,
  the table it was given among them; the frame it returns is a function of the rows of
  that table, of the cuisine and of \<open>N\<close>; and a second call with the same arguments, made
  after the first, returns a frame with the same rows and leaves the result of the
  first call and the table as they were.
\<close>

theorem get_top_N_st_pure:
  assumes "restos < length s"
    and "get_top_N_st srt restos cuisine_type N s = (out, s')"
    and "get_top_N_st srt restos cuisine_type N s' = (out2, s'')"
  shows "(\<forall>ref < length s. s' ! ref = s ! ref) \<and>
         s' ! out = get_top_N srt (s ! restos) cuisine_type N \<and>
         s'' ! out2 = s' ! out \<and>
         s'' ! out = s' ! out \<and>
         s'' ! restos = s ! restos"
proof -
  from assms(1,2) have out: "out = length s + 4" and s': "length s' = length s + 5"
    and pre: "take (length s) s' = s"
    and res: "s' ! (length s + 4) = get_top_N srt (s ! restos) cuisine_type N"
    by (auto simp: get_top_N_st_eq nth_append)
  have old: "s' ! ref = s ! ref" if "ref < length s" for ref
    using that pre by (metis nth_take)
  from assms(1) s' have r': "restos < length s'" by simp
  with assms(3) have out2: "out2 = length s' + 4"
    and pre2: "take (length s') s'' = s'"
    and res2: "s'' ! (length s' + 4) = get_top_N srt (s' ! restos) cuisine_type N"
    by (auto simp: get_top_N_st_eq nth_append)
  have old2: "s'' ! ref = s' ! ref" if "ref < length s'" for ref
    using that pre2 by (metis nth_take)
  have "s'' ! out2 = s' ! out"
    unfolding out out2 res res2 using old [OF assms(1)] by simp
  moreover have "s'' ! out = s' ! out"
    using old2 [of out] out s' by simp
  moreover have "s'' ! restos = s ! restos"
    using old2 [OF r'] old [OF assms(1)] by simp
  ultimately show ?thesis
    using old res out by simp
qed

theorem get_top_N_st_pure_witness:
  "(0 :: nat) < length [[inspection blank 1 ''Thai'' ''A'' 7 (20230101 :: int),
                         inspection blank 2 ''Thai'' ''B'' 3 20230101]] \<and>
   fst (get_top_N_st insertion_sort 0 ''Thai'' 10
     [[inspection blank 1 ''Thai'' ''A'' 7 (20230101 :: int),
       inspection blank 2 ''Thai'' ''B'' 3 20230101]]) = 5 \<and>
   snd (get_top_N_st insertion_sort 0 ''Thai'' 10
     [[inspection blank 1 ''Thai'' ''A'' 7 (20230101 :: int),
       inspection blank 2 ''Thai'' ''B'' 3 20230101]]) ! 5
     = [inspection blank 2 ''Thai'' ''B'' 3 20230101,
        inspection blank 1 ''Thai'' ''A'' 7 20230101] \<and>
   snd (get_top_N_st insertion_sort 0 ''Thai'' 10
     [[inspection blank 1 ''Thai'' ''A'' 7 (20230101 :: int),
       inspection blank 2 ''Thai'' ''B'' 3 20230101]]) ! 0
     = [inspection blank 1 ''Thai'' ''A'' 7 20230101,
        inspection blank 2 ''Thai'' ''B'' 3 20230101] \<and>
   snd (get_top_N_st insertion_sort 0 ''Thai'' 10
         (snd (get_top_N_st insertion_sort 0 ''Thai'' 10
           [[inspection blank 1 ''Thai'' ''A'' 7 (20230101 :: int),
             inspection blank 2 ''Thai'' ''B'' 3 20230101]])))
     ! fst (get_top_N_st insertion_sort 0 ''Thai'' 10
         (snd (get_top_N_st insertion_sort 0 ''Thai'' 10
           [[inspection blank 1 ''Thai'' ''A'' 7 (20230101 :: int),
             inspection blank 2 ''Thai'' ''B'' 3 20230101]])))
     = [inspection blank 2 ''Thai'' ''B'' 3 20230101,
        inspection blank 1 ''Thai'' ''A'' 7 20230101]"
proof -
  let ?t = "[inspection blank 1 ''Thai'' ''A'' 7 (20230101 :: int),
             inspection blank 2 ''Thai'' ''B'' 3 20230101]"
  let ?s = "[?t]"
  let ?c1 = "get_top_N_st insertion_sort 0 ''Thai'' 10 ?s"
  let ?c2 = "get_top_N_st insertion_sort 0 ''Thai'' 10 (snd ?c1)"
  have l: "(0 :: nat) < length ?s" by simp
  have c1: "?c1 = (fst ?c1, snd ?c1)" by simp
  have c2: "?c2 = (fst ?c2, snd ?c2)" by simp
  note T = get_top_N_st_pure [OF l c1 c2]
  have e: "get_top_N insertion_sort ?t ''Thai'' 10
     = [inspection blank 2 ''Thai'' ''B'' 3 20230101,
        inspection blank 1 ''Thai'' ''A'' 7 20230101]"
    by (simp add: selector_eval)
  have f: "fst ?c1 = 5"
    by (simp add: get_top_N_st_eq)
  from T have o: "snd ?c1 ! fst ?c1 = get_top_N insertion_sort (?s ! 0) ''Thai'' 10"
    by blast
  then have o5: "snd ?c1 ! 5 = [inspection blank 2 ''Thai'' ''B'' 3 20230101,
        inspection blank 1 ''Thai'' ''A'' 7 20230101]"
    unfolding f using e by simp
  from T l have i: "snd ?c1 ! 0 = ?s ! 0" by blast
  then have i0: "snd ?c1 ! 0 = ?t" by simp
  from T have "snd ?c2 ! fst ?c2 = snd ?c1 ! fst ?c1" by blast
  then have o2: "snd ?c2 ! fst ?c2 = [inspection blank 2 ''Thai'' ''B'' 3 20230101,
        inspection blank 1 ''Thai'' ''A'' 7 20230101]"
    unfolding f o5 .
  from l f o5 i0 o2 show ?thesis by blast
qed

section \<open>Rows of equal grade date\<close>

text \<open>
  Which of several rows of one restaurant with the same, latest grade date survives
  \<open>drop_duplicates\<close> is decided by the order in which \<open>sort_values\<close> leaves them, that
  is, by the sorting algorithm. Both algorithms below return sorted permutations; on
  the same two rows one keeps the first and the other keeps the second.
\<close>

lemma sorts_reversing_sort: "sorts reversing_sort"
  unfolding sorts_def
proof (intro allI impI conjI)
  fix le :: "'a \<Rightarrow> 'a \<Rightarrow> bool" and xs
  assume h: "(\<forall>a b. le a b \<or> le b a) \<and> (\<forall>a b c. le a b \<longrightarrow> le b c \<longrightarrow> le a c)"
  show "mset (reversing_sort le xs) = mset xs"
    by (simp add: reversing_sort_def insertion_sort_mset)
  from h have tot: "\<forall>a b. le b a \<or> le a b" by blast
  from h have tr: "\<forall>a b c. le b a \<longrightarrow> le c b \<longrightarrow> le c a" by blast
  have "sorted_wrt (\<lambda>a b. le b a) (insertion_sort (\<lambda>a b. le b a) xs)"
    using tot tr by (rule insertion_sort_sorted)
  then show "sorted_wrt le (reversing_sort le xs)"
    by (simp add: reversing_sort_def sorted_wrt_rev)
qed

lemma equal_dates_stable_sort:
  "candidates insertion_sort
     [inspection blank 1 ''Thai'' ''A'' 5 (20230101 :: int),
      inspection blank 1 ''Thai'' ''B'' 9 20230101] ''Thai''
   = [inspection blank 1 ''Thai'' ''A'' 5 20230101]"
  by (simp add: selector_eval)

lemma equal_dates_reversing_sort:
  "candidates reversing_sort
     [inspection blank 1 ''Thai'' ''A'' 5 (20230101 :: int),
      inspection blank 1 ''Thai'' ''B'' 9 20230101] ''Thai''
   = [inspection blank 1 ''Thai'' ''B'' 9 20230101]"
  by (simp add: selector_eval reversing_sort_def)

section \<open>A missing zip code\<close>

text \<open>
  \<open>create_full_address\<close> runs before the lookup, and \<open>int()\<close> of a NaN zip code raises:
  for such a row the geocoding service is never asked.
\<close>

lemma get_lat_lon_zipcode_nan:
  "ZIPCODE resto = NaN \<Longrightarrow> get_lat_lon geocode resto = Inl ValueError"
  by (simp add: get_lat_lon_def create_full_address_def and_then_Inl)

section \<open>The grade date as the loader leaves it\<close>

text \<open>
  The table that every caller passes is \<open>DF\<close>, loaded by \<open>read_data_set\<close> with the dates
  as text. Text is ordered character by character, so a date written month first is
  greater than another as soon as its month is: \<open>12/31/2022\<close> is above \<open>01/15/2023\<close>.
\<close>

lemma string_dates_order: "''01/15/2023'' < ''12/31/2022''"
  by simp

text \<open>The outcome does not depend on the sorting algorithm: the two dates differ.\<close>

lemma string_dates_any_sort:
  assumes "sorts srt"
  shows "get_top_N srt
           [inspection b1 1 ''Thai'' ''A'' 5 ''01/15/2023'',
            inspection b2 1 ''Thai'' ''B'' 9 ''12/31/2022''] ''Thai'' 10
         = [inspection b2 1 ''Thai'' ''B'' 9 ''12/31/2022'']"
proof -
  let ?r1 = "inspection b1 1 ''Thai'' ''A'' 5 ''01/15/2023''"
  let ?r2 = "inspection b2 1 ''Thai'' ''B'' 9 ''12/31/2022''"
  have f: "filter (mask ''Thai'') [?r1, ?r2] = [?r1, ?r2]"
    by (simp add: mask_def inspection_def)
  have "\<not> na_last False (GRADE_DATE ?r1) (GRADE_DATE ?r2)"
    by (simp add: inspection_def)
  with assms have s: "sort_values srt GRADE_DATE False [?r1, ?r2] = [?r2, ?r1]"
    by (rule sort_values_pair)
  have d: "drop_duplicates CAMIS [?r2, ?r1] = [?r2]"
    by (simp add: drop_duplicates_def inspection_def)
  have c: "candidates srt [?r1, ?r2] ''Thai'' = [?r2]"
    unfolding candidates_def f s d ..
  show ?thesis
    unfolding get_top_N_eq c sort_values_single [OF assms]
    by (simp add: iloc_upto_def)
qed

text \<open>
  C1. The claim is that the record kept for a restaurant is the one with the most recent
  grade date among its qualifying records, and the source says the same of itself
  (\<open># only keep most recent grading\<close>). On the table as loaded it is not so: of two
  qualifying inspections of restaurant 1, one of 15 January 2023 (grade A, score 5) and
  one of 31 December 2022 (grade B, score 9), \<open>get_top_N\<close> returns the one of
  December 2022.
\<close>

theorem get_top_N_text_dates:
  "get_top_N insertion_sort
     [inspection (blank :: csv_resto) 1 ''Thai'' ''A'' 5 ''01/15/2023'',
      inspection blank 1 ''Thai'' ''B'' 9 ''12/31/2022''] ''Thai'' 10
   = [inspection blank 1 ''Thai'' ''B'' 9 ''12/31/2022'']"
  by (simp add: selector_eval)

end
